theory Spec2Isabelle
  imports Main "HOL-Library.Word" "HOL-Library.Sublist"
begin

section \<open>JavaScript strings\<close>

text \<open>
  A JavaScript string is a sequence of 16-bit UTF-16 code units. The regular expressions of
  \<^verbatim>\<open>ResponseProcessor\<close> carry no \<^verbatim>\<open>u\<close> flag, so they too work on code units.
  \<open>js\<close> embeds an ASCII literal of the source.
\<close>

type_synonym code_unit = "16 word"
type_synonym jsstring = "code_unit list"

definition js :: "string \<Rightarrow> jsstring" where
  "js = map of_char"

text \<open>
  \<^verbatim>\<open>String.prototype.trim\<close> removes the code units of WhiteSpace and LineTerminator
  (ECMAScript: TAB, LF, VT, FF, CR, SP, NBSP, the Unicode space separators, LS, PS, ZWNBSP)
  from both ends.
\<close>

definition isWhiteSpace :: "code_unit \<Rightarrow> bool" where
  "isWhiteSpace c \<longleftrightarrow>
     c \<in> set [0x9, 0xA, 0xB, 0xC, 0xD, 0x20, 0xA0, 0x1680,
              0x2000, 0x2001, 0x2002, 0x2003, 0x2004, 0x2005, 0x2006, 0x2007, 0x2008, 0x2009,
              0x200A, 0x2028, 0x2029, 0x202F, 0x205F, 0x3000, 0xFEFF]"

definition trim :: "jsstring \<Rightarrow> jsstring" where
  "trim s = rev (dropWhile isWhiteSpace (rev (dropWhile isWhiteSpace s)))"

text \<open>\<^verbatim>\<open>s.includes(sub)\<close> and \<^verbatim>\<open>s.startsWith(sub)\<close>.\<close>

fun includesStr :: "jsstring \<Rightarrow> jsstring \<Rightarrow> bool" where
  "includesStr [] sub = (sub = [])"
| "includesStr (c # cs) sub = (prefix sub (c # cs) \<or> includesStr cs sub)"

definition startsWith :: "jsstring \<Rightarrow> jsstring \<Rightarrow> bool" where
  "startsWith s sub = prefix sub s"

text \<open>The two protocol markers.\<close>

definition ThinkingMarker :: jsstring where
  "ThinkingMarker = js ''Thinking:''"

definition AnswerMarker :: jsstring where
  "AnswerMarker = js ''Answer:''"

section \<open>The regular expressions of ResponseProcessor\<close>

text \<open>
  \<^verbatim>\<open>s.match(re)\<close> for a regular expression without the \<^verbatim>\<open>g\<close> flag tries the start
  positions of \<open>s\<close> from left to right and returns the first match, or \<^verbatim>\<open>null\<close>.
  A match is represented by its capture group 1, the only part the source reads.
\<close>

fun searchFrom :: "(jsstring \<Rightarrow> 'a option) \<Rightarrow> jsstring \<Rightarrow> 'a option" where
  "searchFrom m [] = m []"
| "searchFrom m (c # cs) =
     (case m (c # cs) of Some r \<Rightarrow> Some r | None \<Rightarrow> searchFrom m cs)"

text \<open>
  \<^verbatim>\<open>(.*?)(?=Answer:|$)\<close> with the \<^verbatim>\<open>s\<close> flag: the lazy group takes no code unit while
  the lookahead succeeds (\<^verbatim>\<open>Answer:\<close> follows, or the input ends), and one more otherwise.
\<close>

fun lazyBeforeAnswer :: "jsstring \<Rightarrow> jsstring" where
  "lazyBeforeAnswer [] = []"
| "lazyBeforeAnswer (c # cs) =
     (if prefix AnswerMarker (c # cs) then [] else c # lazyBeforeAnswer cs)"

text \<open>\<^verbatim>\<open>(.*?)$\<close> with the \<^verbatim>\<open>s\<close> flag and no \<^verbatim>\<open>m\<close> flag: \<^verbatim>\<open>$\<close> holds at the end of input only.\<close>

fun lazyToEnd :: "jsstring \<Rightarrow> jsstring" where
  "lazyToEnd [] = []"
| "lazyToEnd (c # cs) = c # lazyToEnd cs"

text \<open>\<^verbatim>\<open>/Thinking:(.*?)(?=Answer:|$)/s\<close> at one start position, then as \<^verbatim>\<open>match\<close>.\<close>

definition thinkingAt :: "jsstring \<Rightarrow> jsstring option" where
  "thinkingAt s =
     (if prefix ThinkingMarker s
      then Some (lazyBeforeAnswer (drop (length ThinkingMarker) s)) else None)"

definition matchThinking :: "jsstring \<Rightarrow> jsstring option" where
  "matchThinking s = searchFrom thinkingAt s"

text \<open>\<^verbatim>\<open>/Answer:(.*?)$/s\<close> at one start position, then as \<^verbatim>\<open>match\<close>.\<close>

definition answerAt :: "jsstring \<Rightarrow> jsstring option" where
  "answerAt s =
     (if prefix AnswerMarker s
      then Some (lazyToEnd (drop (length AnswerMarker) s)) else None)"

definition matchAnswer :: "jsstring \<Rightarrow> jsstring option" where
  "matchAnswer s = searchFrom answerAt s"

text \<open>
  \<^verbatim>\<open>s.replace(/^Thinking:/, r)\<close>: \<^verbatim>\<open>^\<close> holds at position 0 only; without a match the
  string is returned as it is. No replacement string of the source contains \<^verbatim>\<open>$\<close>.
\<close>

definition replaceThinkingPrefix :: "jsstring \<Rightarrow> jsstring \<Rightarrow> jsstring" where
  "replaceThinkingPrefix s r =
     (if prefix ThinkingMarker s then r @ drop (length ThinkingMarker) s else s)"

text \<open>
  \<^verbatim>\<open>s.replace(/^.*?Thinking:/s, r)\<close>: from position 0 the lazy \<^verbatim>\<open>.*?\<close> grows one code
  unit at a time until \<^verbatim>\<open>Thinking:\<close> follows; \<open>lazyThroughThinking\<close> is what remains
  after the match.
\<close>

fun lazyThroughThinking :: "jsstring \<Rightarrow> jsstring option" where
  "lazyThroughThinking [] =
     (if prefix ThinkingMarker [] then Some (drop (length ThinkingMarker) []) else None)"
| "lazyThroughThinking (c # cs) =
     (if prefix ThinkingMarker (c # cs) then Some (drop (length ThinkingMarker) (c # cs))
      else lazyThroughThinking cs)"

definition replaceThroughThinking :: "jsstring \<Rightarrow> jsstring \<Rightarrow> jsstring" where
  "replaceThroughThinking s r =
     (case lazyThroughThinking s of None \<Rightarrow> s | Some rest \<Rightarrow> r @ rest)"

text \<open>Reading index 1 of a match result: a \<^verbatim>\<open>TypeError\<close> when the result is \<^verbatim>\<open>null\<close>.\<close>

datatype error = TypeError

definition group1 :: "jsstring option \<Rightarrow> error + jsstring" where
  "group1 m = (case m of None \<Rightarrow> Inl TypeError | Some g \<Rightarrow> Inr g)"

section \<open>ResponseProcessor\<close>

text \<open>
  The object returned by the two processing functions. \<^verbatim>\<open>partial\<close> and \<^verbatim>\<open>stage\<close> are
  absent from some of the returned objects: \<open>None\<close> is the absent property.
\<close>

record processed =
  thinking :: jsstring
  answer :: jsstring
  hasStructuredResponse :: bool
  partial :: "bool option"
  stage :: "jsstring option"

text \<open>The private state of the module.\<close>

record processor_state =
  lastThinkingContent :: jsstring
  lastAnswerContent :: jsstring
  isThinking :: bool

definition resetState :: processor_state where
  "resetState = \<lparr>lastThinkingContent = [], lastAnswerContent = [], isThinking = False\<rparr>"

text \<open>The object of the final \<^verbatim>\<open>return\<close> of both processing functions.\<close>

definition wholeAsAnswer :: "jsstring \<Rightarrow> processed" where
  "wholeAsAnswer response =
     \<lparr>thinking = [], answer = response, hasStructuredResponse = False,
      partial = None, stage = None\<rparr>"

definition processCoTResponse ::
  "processor_state \<Rightarrow> jsstring \<Rightarrow> error + (processed \<times> processor_state)" where
  "processCoTResponse st response =
     (let thinkingMatch = matchThinking response;
          answerMatch = matchAnswer response
      in if thinkingMatch \<noteq> None \<and> answerMatch \<noteq> None then
           (case group1 thinkingMatch of
              Inl e \<Rightarrow> Inl e
            | Inr tg \<Rightarrow>
                (case group1 answerMatch of
                   Inl e \<Rightarrow> Inl e
                 | Inr ag \<Rightarrow>
                     (let thinking = trim tg; answer = trim ag
                      in Inr (\<lparr>thinking = thinking, answer = answer,
                                hasStructuredResponse = True, partial = None, stage = None\<rparr>,
                              st\<lparr>lastThinkingContent := thinking,
                                 lastAnswerContent := answer\<rparr>))))
         else if startsWith response ThinkingMarker
                 \<and> \<not> includesStr response AnswerMarker then
           (let thinking = trim (replaceThinkingPrefix response [])
            in Inr (\<lparr>thinking = thinking, answer = lastAnswerContent st,
                      hasStructuredResponse = True, partial = Some True,
                      stage = Some (js ''thinking'')\<rparr>,
                    st\<lparr>lastThinkingContent := thinking\<rparr>))
         else if includesStr response ThinkingMarker \<and> thinkingMatch = None then
           (let thinking = replaceThroughThinking response (js ''Thinking:'')
            in Inr (\<lparr>thinking = trim (replaceThinkingPrefix thinking []), answer = [],
                      hasStructuredResponse = False, partial = Some True, stage = None\<rparr>,
                    st))
         else Inr (wholeAsAnswer response, st))"

definition processPartialCoTResponse :: "jsstring \<Rightarrow> error + processed" where
  "processPartialCoTResponse fullText =
     (if includesStr fullText ThinkingMarker \<and> \<not> includesStr fullText AnswerMarker then
        (let thinking = trim (replaceThroughThinking fullText [])
         in Inr \<lparr>thinking = thinking, answer = [], hasStructuredResponse = True,
                 partial = Some True, stage = Some (js ''thinking'')\<rparr>)
      else if includesStr fullText ThinkingMarker \<and> includesStr fullText AnswerMarker then
        (let thinkingMatch = matchThinking fullText;
             answerMatch = matchAnswer fullText
         in if thinkingMatch \<noteq> None \<and> answerMatch \<noteq> None then
              (case group1 thinkingMatch of
                 Inl e \<Rightarrow> Inl e
               | Inr tg \<Rightarrow>
                   (case group1 answerMatch of
                      Inl e \<Rightarrow> Inl e
                    | Inr ag \<Rightarrow>
                        Inr \<lparr>thinking = trim tg, answer = trim ag,
                             hasStructuredResponse = True, partial = Some False,
                             stage = None\<rparr>))
            else Inr (wholeAsAnswer fullText))
      else Inr (wholeAsAnswer fullText))"

text \<open>The settings object of \<^verbatim>\<open>SettingsManager\<close>.\<close>

record settings =
  streaming :: bool
  enableCoT :: bool
  showThinking :: bool

text \<open>The literal of the waiting indicator: U+1F914 as its surrogate pair, then the text.\<close>

definition thinkingIndicator :: jsstring where
  "thinkingIndicator = [0xD83E, 0xDD14] @ js '' Thinking...''"

definition formatResponseForDisplay :: "processed \<Rightarrow> settings \<Rightarrow> jsstring" where
  "formatResponseForDisplay p cfg =
     (if \<not> enableCoT cfg \<or> \<not> hasStructuredResponse p then answer p
      else if showThinking cfg then
        (if partial p = Some True \<and> stage p = Some (js ''thinking'') then
           js ''Thinking: '' @ thinking p
         else if partial p = Some True then thinking p
         else js ''Thinking: '' @ thinking p @ js ''\<newline>\<newline>Answer: '' @ answer p)
      else (if answer p \<noteq> [] then answer p else thinkingIndicator))"

section \<open>The classification vocabulary\<close>

text \<open>
  The stage and the partial flag of a result, read the way \<open>formatResponseForDisplay\<close>
  tells the returned objects apart: a partial object tagged \<^verbatim>\<open>'thinking'\<close> is in the
  reasoning stage, a structured object that is not partial is complete, every other object
  has no stage.
\<close>

datatype stage_kind = NONE | REASONING | COMPLETE

definition isPartial :: "processed \<Rightarrow> bool" where
  "isPartial p = (partial p = Some True)"

definition stageOf :: "processed \<Rightarrow> stage_kind" where
  "stageOf p =
     (if partial p = Some True \<and> stage p = Some (js ''thinking'') then REASONING
      else if hasStructuredResponse p \<and> partial p \<noteq> Some True then COMPLETE
      else NONE)"

section \<open>The segments in the words of the specification\<close>

text \<open>
  The specification describes the segments by positions: the first occurrence of a marker
  at or after a position, and the text between two positions. \<open>firstIndexFrom s sub from\<close>
  is the least index at or after \<open>from\<close> where \<open>sub\<close> occurs in \<open>s\<close>.
\<close>

definition firstIndexFrom :: "jsstring \<Rightarrow> jsstring \<Rightarrow> nat \<Rightarrow> nat option" where
  "firstIndexFrom s sub from = find (\<lambda>i. prefix sub (drop i s)) [from ..< Suc (length s)]"

definition substring :: "jsstring \<Rightarrow> nat \<Rightarrow> nat \<Rightarrow> jsstring" where
  "substring s a b = take (b - a) (drop a s)"

text \<open>
  The reasoning as the specification words it: the text between the first \<^verbatim>\<open>Thinking:\<close>
  and the first \<^verbatim>\<open>Answer:\<close> after it, trimmed; there is none when no \<^verbatim>\<open>Answer:\<close>
  follows. \<open>specAnswer\<close> is the text after the first \<^verbatim>\<open>Answer:\<close>, trimmed, and
  \<open>reasoningToAnswerOrEnd\<close> lets the reasoning run to the end of the text when no
  \<^verbatim>\<open>Answer:\<close> follows the first \<^verbatim>\<open>Thinking:\<close>.
\<close>

definition specReasoning :: "jsstring \<Rightarrow> jsstring option" where
  "specReasoning t =
     (case firstIndexFrom t ThinkingMarker 0 of
        None \<Rightarrow> None
      | Some i \<Rightarrow>
          (case firstIndexFrom t AnswerMarker (i + length ThinkingMarker) of
             None \<Rightarrow> None
           | Some j \<Rightarrow> Some (trim (substring t (i + length ThinkingMarker) j))))"

definition specAnswer :: "jsstring \<Rightarrow> jsstring option" where
  "specAnswer t =
     (case firstIndexFrom t AnswerMarker 0 of
        None \<Rightarrow> None
      | Some k \<Rightarrow> Some (trim (drop (k + length AnswerMarker) t)))"

definition reasoningToAnswerOrEnd :: "jsstring \<Rightarrow> jsstring option" where
  "reasoningToAnswerOrEnd t =
     (case firstIndexFrom t ThinkingMarker 0 of
        None \<Rightarrow> None
      | Some i \<Rightarrow>
          (case firstIndexFrom t AnswerMarker (i + length ThinkingMarker) of
             None \<Rightarrow> Some (trim (drop (i + length ThinkingMarker) t))
           | Some j \<Rightarrow> Some (trim (substring t (i + length ThinkingMarker) j))))"

section \<open>Index scans and the regular expressions\<close>

lemma find_map_shift: "find P (map f xs) = map_option f (find (P \<circ> f) xs)"
  by (induction xs) auto

lemma firstIndexFrom_Nil: "firstIndexFrom [] sub 0 = (if sub = [] then Some 0 else None)"
  by (simp add: firstIndexFrom_def)

lemma firstIndexFrom_Cons_Suc:
  "firstIndexFrom (c # cs) sub (Suc a) = map_option Suc (firstIndexFrom cs sub a)"
proof -
  have "[Suc a ..< Suc (length (c # cs))] = map Suc [a ..< Suc (length cs)]"
    by (simp add: map_Suc_upt)
  then show ?thesis
    by (simp add: firstIndexFrom_def find_map_shift comp_def)
qed

lemma firstIndexFrom_Cons_0:
  "firstIndexFrom (c # cs) sub 0 =
     (if prefix sub (c # cs) then Some 0 else map_option Suc (firstIndexFrom cs sub 0))"
proof -
  have "firstIndexFrom (c # cs) sub 0 =
          (if prefix sub (c # cs) then Some 0 else firstIndexFrom (c # cs) sub (Suc 0))"
    by (simp add: firstIndexFrom_def upt_conv_Cons del: upt_Suc)
  then show ?thesis
    by (simp only: firstIndexFrom_Cons_Suc)
qed

lemma includesStr_firstIndex: "includesStr s sub \<longleftrightarrow> firstIndexFrom s sub 0 \<noteq> None"
  by (induction s) (auto simp: firstIndexFrom_Nil firstIndexFrom_Cons_0)

lemma firstIndexFrom_drop:
  "a \<le> length s \<Longrightarrow>
     firstIndexFrom s sub a = map_option (\<lambda>j. j + a) (firstIndexFrom (drop a s) sub 0)"
proof (induction a arbitrary: s)
  case 0
  then show ?case by (simp add: option.map_ident)
next
  case (Suc a)
  then obtain c cs where s: "s = c # cs" by (cases s) auto
  with Suc.prems have "a \<le> length cs" by simp
  from Suc.IH [OF this] show ?case
    by (simp add: s firstIndexFrom_Cons_Suc option.map_comp comp_def)
qed

lemma firstIndexFrom_bound:
  assumes "firstIndexFrom s sub a = Some i"
  shows "a \<le> i \<and> i + length sub \<le> length s \<and> prefix sub (drop i s)"
proof -
  from assms obtain k where k: "k < length [a ..< Suc (length s)]"
      "prefix sub (drop ([a ..< Suc (length s)] ! k) s)" "i = [a ..< Suc (length s)] ! k"
    unfolding firstIndexFrom_def find_Some_iff by blast
  from k(1,3) have "i \<in> set [a ..< Suc (length s)]" by (simp only: nth_mem)
  then have i: "a \<le> i" "i \<le> length s" by (simp_all del: upt_Suc)
  from k(2,3) have p: "prefix sub (drop i s)" by simp
  then have "length sub \<le> length (drop i s)" by (rule prefix_length_le)
  with i p show ?thesis by simp
qed

lemma lazyToEnd_id: "lazyToEnd s = s"
  by (induction s) auto

lemma lazyBeforeAnswer_firstIndex:
  "lazyBeforeAnswer r =
     (case firstIndexFrom r AnswerMarker 0 of None \<Rightarrow> r | Some j \<Rightarrow> take j r)"
  by (induction r) (auto simp: firstIndexFrom_Nil firstIndexFrom_Cons_0 split: option.splits)

lemma matchAnswer_firstIndex:
  "matchAnswer s =
     map_option (\<lambda>k. drop (k + length AnswerMarker) s) (firstIndexFrom s AnswerMarker 0)"
  unfolding matchAnswer_def
  by (induction s)
    (auto simp: answerAt_def lazyToEnd_id firstIndexFrom_Nil firstIndexFrom_Cons_0
      option.map_comp comp_def AnswerMarker_def js_def)

lemma matchThinking_firstIndex:
  "matchThinking s =
     map_option (\<lambda>i. lazyBeforeAnswer (drop (i + length ThinkingMarker) s))
       (firstIndexFrom s ThinkingMarker 0)"
  unfolding matchThinking_def
  by (induction s)
    (auto simp: thinkingAt_def firstIndexFrom_Nil firstIndexFrom_Cons_0
      option.map_comp comp_def ThinkingMarker_def js_def)

lemma matchThinking_None: "matchThinking s = None \<longleftrightarrow> \<not> includesStr s ThinkingMarker"
  by (simp add: matchThinking_firstIndex includesStr_firstIndex)

lemma matchAnswer_None: "matchAnswer s = None \<longleftrightarrow> \<not> includesStr s AnswerMarker"
  by (simp add: matchAnswer_firstIndex includesStr_firstIndex)

lemma lazyBeforeAnswer_segment:
  assumes "a \<le> length s"
  shows "lazyBeforeAnswer (drop a s) =
     (case firstIndexFrom s AnswerMarker a of None \<Rightarrow> drop a s | Some j \<Rightarrow> substring s a j)"
  by (simp add: lazyBeforeAnswer_firstIndex firstIndexFrom_drop [OF assms] substring_def
      split: option.splits)

lemma trim_matchThinking:
  "map_option trim (matchThinking s) = reasoningToAnswerOrEnd s"
proof (cases "firstIndexFrom s ThinkingMarker 0")
  case None
  then show ?thesis
    by (simp add: matchThinking_firstIndex reasoningToAnswerOrEnd_def)
next
  case (Some i)
  from firstIndexFrom_bound [OF Some] have "i + length ThinkingMarker \<le> length s" by simp
  from lazyBeforeAnswer_segment [OF this] Some show ?thesis
    by (simp add: matchThinking_firstIndex reasoningToAnswerOrEnd_def split: option.splits)
qed

lemma trim_matchAnswer: "map_option trim (matchAnswer s) = specAnswer s"
  by (simp add: matchAnswer_firstIndex specAnswer_def split: option.splits)

lemma trim_eq_Nil: "trim s = [] \<longleftrightarrow> list_all isWhiteSpace s"
proof -
  let ?d = "dropWhile isWhiteSpace s"
  have "trim s = [] \<longleftrightarrow> (\<forall>x \<in> set ?d. isWhiteSpace x)"
    by (simp only: trim_def rev_is_Nil_conv dropWhile_eq_Nil_conv set_rev)
  also have "\<dots> \<longleftrightarrow> (\<forall>x \<in> set s. isWhiteSpace x)"
  proof
    assume a: "\<forall>x \<in> set ?d. isWhiteSpace x"
    show "\<forall>x \<in> set s. isWhiteSpace x"
    proof (rule ccontr)
      assume "\<not> (\<forall>x \<in> set s. isWhiteSpace x)"
      then have ne: "?d \<noteq> []" by (simp only: dropWhile_eq_Nil_conv not_False_eq_True)
      then have "\<not> isWhiteSpace (hd ?d)" by (rule hd_dropWhile)
      moreover from ne have "hd ?d \<in> set ?d" by (rule hd_in_set)
      ultimately show False using a by blast
    qed
  next
    assume "\<forall>x \<in> set s. isWhiteSpace x"
    then show "\<forall>x \<in> set ?d. isWhiteSpace x" by (blast dest: set_dropWhileD)
  qed
  finally show ?thesis by (simp only: list_all_iff)
qed

lemma startsWith_includesStr: "startsWith t m \<Longrightarrow> includesStr t m"
  by (cases t) (auto simp: startsWith_def)

lemma processCoTResponse_both:
  assumes "matchThinking t = Some tg" and "matchAnswer t = Some ag"
  shows "processCoTResponse st t =
     Inr (\<lparr>thinking = trim tg, answer = trim ag, hasStructuredResponse = True,
           partial = None, stage = None\<rparr>,
          st\<lparr>lastThinkingContent := trim tg, lastAnswerContent := trim ag\<rparr>)"
  using assms by (simp add: processCoTResponse_def group1_def Let_def)

lemma processCoTResponse_thinking_only:
  assumes "startsWith t ThinkingMarker" and "\<not> includesStr t AnswerMarker"
  shows "processCoTResponse st t =
     Inr (\<lparr>thinking = trim (drop (length ThinkingMarker) t), answer = lastAnswerContent st,
           hasStructuredResponse = True, partial = Some True, stage = Some (js ''thinking'')\<rparr>,
          st\<lparr>lastThinkingContent := trim (drop (length ThinkingMarker) t)\<rparr>)"
proof -
  from assms(2) have "matchAnswer t = None" by (simp add: matchAnswer_None)
  with assms show ?thesis
    by (simp add: processCoTResponse_def Let_def replaceThinkingPrefix_def startsWith_def)
qed

lemma processCoTResponse_plain:
  assumes "\<not> includesStr t ThinkingMarker
           \<or> \<not> startsWith t ThinkingMarker \<and> \<not> includesStr t AnswerMarker"
  shows "processCoTResponse st t = Inr (wholeAsAnswer t, st)"
proof (cases "includesStr t ThinkingMarker")
  case False
  then have "matchThinking t = None" "\<not> startsWith t ThinkingMarker"
    by (auto simp: matchThinking_None dest: startsWith_includesStr)
  with False show ?thesis
    by (simp add: processCoTResponse_def Let_def)
next
  case True
  with assms have "\<not> startsWith t ThinkingMarker" "matchAnswer t = None"
    by (simp_all add: matchAnswer_None)
  moreover from True obtain tg where "matchThinking t = Some tg"
    using matchThinking_None [of t] by auto
  ultimately show ?thesis
    by (simp add: processCoTResponse_def Let_def)
qed

lemma processCoTResponse_complete:
  assumes "processCoTResponse st t = Inr (r, st')" and "stageOf r = COMPLETE"
  shows "\<exists>ag. matchAnswer t = Some ag \<and> answer r = trim ag"
  using assms
  by (auto simp: processCoTResponse_def Let_def group1_def stageOf_def wholeAsAnswer_def
      split: if_splits)

lemma processPartialCoTResponse_complete:
  assumes "processPartialCoTResponse t = Inr r" and "stageOf r = COMPLETE"
  shows "\<exists>ag. matchAnswer t = Some ag \<and> answer r = trim ag"
  using assms
  by (auto simp: processPartialCoTResponse_def Let_def group1_def stageOf_def wholeAsAnswer_def
      split: if_splits)

lemma processCoTResponse_returns: "\<exists>r st'. processCoTResponse st t = Inr (r, st')"
proof (cases "includesStr t ThinkingMarker \<and> includesStr t AnswerMarker")
  case True
  then obtain tg ag where "matchThinking t = Some tg" "matchAnswer t = Some ag"
    using matchThinking_None [of t] matchAnswer_None [of t] by auto
  from processCoTResponse_both [OF this] show ?thesis by blast
next
  case False
  show ?thesis
  proof (cases "startsWith t ThinkingMarker \<and> \<not> includesStr t AnswerMarker")
    case True
    then show ?thesis using processCoTResponse_thinking_only [of t st] by blast
  next
    case no: False
    with False have "\<not> includesStr t ThinkingMarker
           \<or> \<not> startsWith t ThinkingMarker \<and> \<not> includesStr t AnswerMarker"
      by blast
    from processCoTResponse_plain [OF this] show ?thesis by blast
  qed
qed

lemma processPartialCoTResponse_returns: "\<exists>r. processPartialCoTResponse t = Inr r"
  by (cases "matchThinking t"; cases "matchAnswer t")
    (simp_all add: processPartialCoTResponse_def Let_def group1_def)

lemma processPartialCoTResponse_plain:
  assumes "\<not> includesStr t ThinkingMarker"
  shows "processPartialCoTResponse t = Inr (wholeAsAnswer t)"
  using assms by (simp add: processPartialCoTResponse_def)

lemma malformed_branch_unreachable:
  "\<not> (includesStr t ThinkingMarker \<and> matchThinking t = None)"
  by (simp add: matchThinking_None)

section \<open>Both markers\<close>

lemma specReasoning_Some:
  "specReasoning t = Some x \<Longrightarrow> reasoningToAnswerOrEnd t = Some x"
  by (auto simp: specReasoning_def reasoningToAnswerOrEnd_def split: option.splits)

text \<open>
  With \<^verbatim>\<open>Answer:\<close> only before \<^verbatim>\<open>Thinking:\<close> both markers occur, no \<^verbatim>\<open>Answer:\<close>
  follows the \<^verbatim>\<open>Thinking:\<close>, and the reasoning returned is the text up to the end.
\<close>

theorem both_markers_counterexample:
  "includesStr (js ''Answer: x Thinking: y'') ThinkingMarker
   \<and> includesStr (js ''Answer: x Thinking: y'') AnswerMarker
   \<and> specReasoning (js ''Answer: x Thinking: y'') = None
   \<and> processCoTResponse resetState (js ''Answer: x Thinking: y'') =
       Inr (\<lparr>thinking = js ''y'', answer = js ''x Thinking: y'',
             hasStructuredResponse = True, partial = None, stage = None\<rparr>,
            \<lparr>lastThinkingContent = js ''y'', lastAnswerContent = js ''x Thinking: y'',
             isThinking = False\<rparr>)"
  by code_simp

text \<open>
  Claim C1, amended. For every text in which both markers occur, \<open>processCoTResponse\<close>
  returns the reasoning between the first \<^verbatim>\<open>Thinking:\<close> and the first \<^verbatim>\<open>Answer:\<close> after
  it, or up to the end of the text when no \<^verbatim>\<open>Answer:\<close> follows, and the answer from the
  first \<^verbatim>\<open>Answer:\<close> of the text to its end, both trimmed; the result is structured,
  complete and not partial. Wherever an \<^verbatim>\<open>Answer:\<close> follows the first \<^verbatim>\<open>Thinking:\<close>,
  the reasoning returned is the one the specification describes.
\<close>

theorem processCoTResponse_both_markers:
  assumes "includesStr t ThinkingMarker" and "includesStr t AnswerMarker"
  shows "\<exists>r st'. processCoTResponse st t = Inr (r, st')
           \<and> Some (thinking r) = reasoningToAnswerOrEnd t
           \<and> (specReasoning t \<noteq> None \<longrightarrow> Some (thinking r) = specReasoning t)
           \<and> Some (answer r) = specAnswer t
           \<and> hasStructuredResponse r \<and> stageOf r = COMPLETE \<and> \<not> isPartial r"
proof -
  from assms obtain tg ag where m: "matchThinking t = Some tg" "matchAnswer t = Some ag"
    using matchThinking_None [of t] matchAnswer_None [of t] by auto
  have tg: "Some (trim tg) = reasoningToAnswerOrEnd t"
    using trim_matchThinking [of t] m(1) by simp
  have ag: "Some (trim ag) = specAnswer t"
    using trim_matchAnswer [of t] m(2) by simp
  have "specReasoning t \<noteq> None \<longrightarrow> Some (trim tg) = specReasoning t"
    using tg by (auto dest: specReasoning_Some)
  with tg ag show ?thesis
    unfolding processCoTResponse_both [OF m]
    by (simp add: stageOf_def isPartial_def)
qed

theorem processCoTResponse_both_markers_witness:
  "includesStr (js ''Thinking: because X\<newline>Answer: Y'') ThinkingMarker
   \<and> includesStr (js ''Thinking: because X\<newline>Answer: Y'') AnswerMarker
   \<and> (\<exists>r st'. processCoTResponse resetState (js ''Thinking: because X\<newline>Answer: Y'') = Inr (r, st')
         \<and> thinking r = js ''because X'' \<and> answer r = js ''Y''
         \<and> hasStructuredResponse r \<and> stageOf r = COMPLETE \<and> \<not> isPartial r)
   \<and> specReasoning (js ''Thinking: because X\<newline>Answer: Y'') = Some (js ''because X'')"
proof -
  let ?t = "js ''Thinking: because X\<newline>Answer: Y''"
  have i: "includesStr ?t ThinkingMarker" "includesStr ?t AnswerMarker"
    by code_simp+
  have s: "specReasoning ?t = Some (js ''because X'')"
      "specAnswer ?t = Some (js ''Y'')"
    by code_simp+
  from processCoTResponse_both_markers [OF i, of resetState] i s show ?thesis
    by auto
qed

section \<open>Reasoning without an answer\<close>

text \<open>
  Claim C5. A text that starts with \<^verbatim>\<open>Thinking:\<close> and contains no \<^verbatim>\<open>Answer:\<close> is
  classified as reasoning in progress: the reasoning is the remainder after the prefix,
  trimmed; the result is structured, partial and in the reasoning stage; the answer is the
  last answer kept in the state, and the state's last reasoning becomes the extracted one.
\<close>

theorem processCoTResponse_reasoning_only:
  assumes "startsWith t ThinkingMarker" and "\<not> includesStr t AnswerMarker"
  shows "\<exists>r st'. processCoTResponse st t = Inr (r, st')
           \<and> t = ThinkingMarker @ drop (length ThinkingMarker) t
           \<and> thinking r = trim (drop (length ThinkingMarker) t)
           \<and> answer r = lastAnswerContent st
           \<and> hasStructuredResponse r \<and> stageOf r = REASONING \<and> isPartial r
           \<and> st' = st\<lparr>lastThinkingContent := thinking r\<rparr>"
proof -
  from assms(1) have "t = ThinkingMarker @ drop (length ThinkingMarker) t"
    by (auto simp: startsWith_def prefix_def)
  then show ?thesis
    unfolding processCoTResponse_thinking_only [OF assms]
    by (simp add: stageOf_def isPartial_def)
qed

theorem processCoTResponse_reasoning_only_witness:
  "startsWith (js ''Thinking: still working'') ThinkingMarker
   \<and> \<not> includesStr (js ''Thinking: still working'') AnswerMarker
   \<and> (\<exists>r st'. processCoTResponse
         \<lparr>lastThinkingContent = js ''old'', lastAnswerContent = js ''kept'', isThinking = True\<rparr>
         (js ''Thinking: still working'') = Inr (r, st')
       \<and> thinking r = js ''still working'' \<and> answer r = js ''kept''
       \<and> hasStructuredResponse r \<and> stageOf r = REASONING \<and> isPartial r
       \<and> st' = \<lparr>lastThinkingContent = js ''still working'', lastAnswerContent = js ''kept'',
                isThinking = True\<rparr>)"
proof -
  let ?t = "js ''Thinking: still working''"
  have h: "startsWith ?t ThinkingMarker" "\<not> includesStr ?t AnswerMarker"
    by code_simp+
  have d: "trim (drop (length ThinkingMarker) ?t) = js ''still working''"
    by code_simp
  from processCoTResponse_reasoning_only [OF h,
      of "\<lparr>lastThinkingContent = js ''old'', lastAnswerContent = js ''kept'', isThinking = True\<rparr>"]
    h d
  show ?thesis by auto
qed

text \<open>
  The branch of \<open>processCoTResponse\<close> for a malformed response asks for a text that
  includes \<^verbatim>\<open>Thinking:\<close> and that the first regular expression does not match; no text
  is both (\<open>malformed_branch_unreachable\<close>).
\<close>

text \<open>
  Claim C2. At a text with \<^verbatim>\<open>Thinking:\<close> after other text and no \<^verbatim>\<open>Answer:\<close>,
  \<open>processCoTResponse\<close> returns the whole text as the answer, with empty reasoning and
  no partial flag, where \<open>processPartialCoTResponse\<close> extracts the reasoning.
\<close>

theorem processCoTResponse_malformed_input:
  "processCoTResponse resetState (js ''x Thinking: y'') =
     Inr (\<lparr>thinking = [], answer = js ''x Thinking: y'', hasStructuredResponse = False,
           partial = None, stage = None\<rparr>,
          resetState)
   \<and> processPartialCoTResponse (js ''x Thinking: y'') =
     Inr \<lparr>thinking = js ''y'', answer = [], hasStructuredResponse = True,
          partial = Some True, stage = Some (js ''thinking'')\<rparr>"
  by code_simp

section \<open>Unstructured text\<close>

text \<open>
  Claim C7. A text with neither marker is returned whole as the answer, with empty
  reasoning, unstructured, not partial and without a stage; the state is left as it is.
\<close>

theorem processCoTResponse_no_markers:
  assumes "\<not> includesStr t ThinkingMarker" and "\<not> includesStr t AnswerMarker"
  shows "processCoTResponse st t =
           Inr (\<lparr>thinking = [], answer = t, hasStructuredResponse = False,
                 partial = None, stage = None\<rparr>, st)
         \<and> stageOf \<lparr>thinking = [], answer = t, hasStructuredResponse = False,
                 partial = None, stage = None\<rparr> = NONE
         \<and> \<not> isPartial \<lparr>thinking = [], answer = t, hasStructuredResponse = False,
                 partial = None, stage = None\<rparr>"
  using assms(1) processCoTResponse_plain [of t st]
  by (simp add: wholeAsAnswer_def stageOf_def isPartial_def)

theorem processCoTResponse_no_markers_witness:
  "\<not> includesStr (js ''Hello there'') ThinkingMarker
   \<and> \<not> includesStr (js ''Hello there'') AnswerMarker
   \<and> processCoTResponse resetState (js ''Hello there'') =
       Inr (\<lparr>thinking = [], answer = js ''Hello there'', hasStructuredResponse = False,
             partial = None, stage = None\<rparr>, resetState)"
proof -
  have h: "\<not> includesStr (js ''Hello there'') ThinkingMarker"
      "\<not> includesStr (js ''Hello there'') AnswerMarker"
    by code_simp+
  from processCoTResponse_no_markers [OF h, of resetState] h show ?thesis
    by simp
qed

text \<open>
  Claim C10. A text with \<^verbatim>\<open>Answer:\<close> and without \<^verbatim>\<open>Thinking:\<close> is unstructured for
  both processing functions: the whole text, marker included, is the answer and the
  reasoning is empty.
\<close>

theorem answer_marker_only_unstructured:
  assumes "includesStr t AnswerMarker" and "\<not> includesStr t ThinkingMarker"
  shows "processCoTResponse st t =
           Inr (\<lparr>thinking = [], answer = t, hasStructuredResponse = False,
                 partial = None, stage = None\<rparr>, st)
         \<and> processPartialCoTResponse t =
           Inr \<lparr>thinking = [], answer = t, hasStructuredResponse = False,
                partial = None, stage = None\<rparr>"
  using assms(2) processCoTResponse_plain [of t st] processPartialCoTResponse_plain [of t]
  by (simp add: wholeAsAnswer_def)

theorem answer_marker_only_unstructured_witness:
  "includesStr (js ''Answer: 42'') AnswerMarker
   \<and> \<not> includesStr (js ''Answer: 42'') ThinkingMarker
   \<and> processCoTResponse resetState (js ''Answer: 42'') =
       Inr (\<lparr>thinking = [], answer = js ''Answer: 42'', hasStructuredResponse = False,
             partial = None, stage = None\<rparr>, resetState)
   \<and> processPartialCoTResponse (js ''Answer: 42'') =
       Inr \<lparr>thinking = [], answer = js ''Answer: 42'', hasStructuredResponse = False,
            partial = None, stage = None\<rparr>"
proof -
  have h: "includesStr (js ''Answer: 42'') AnswerMarker"
      "\<not> includesStr (js ''Answer: 42'') ThinkingMarker"
    by code_simp+
  from answer_marker_only_unstructured [OF h, of resetState] h show ?thesis
    by simp
qed

section \<open>Completeness and the answer\<close>

text \<open>
  Both functions mark a text complete as soon as both markers occur, also when nothing
  follows \<^verbatim>\<open>Answer:\<close> yet.
\<close>

theorem complete_empty_answer_counterexample:
  "processPartialCoTResponse (js ''Thinking: x\<newline>Answer:'') =
     Inr \<lparr>thinking = js ''x'', answer = [], hasStructuredResponse = True,
          partial = Some False, stage = None\<rparr>
   \<and> stageOf \<lparr>thinking = js ''x'', answer = [], hasStructuredResponse = True,
          partial = Some False, stage = None\<rparr> = COMPLETE
   \<and> processCoTResponse resetState (js ''Thinking: x\<newline>Answer:'') =
     Inr (\<lparr>thinking = js ''x'', answer = [], hasStructuredResponse = True,
           partial = None, stage = None\<rparr>,
          \<lparr>lastThinkingContent = js ''x'', lastAnswerContent = [], isThinking = False\<rparr>)
   \<and> stageOf \<lparr>thinking = js ''x'', answer = [], hasStructuredResponse = True,
          partial = None, stage = None\<rparr> = COMPLETE"
  by code_simp

text \<open>
  Claim C4, amended. A result of either function in the complete stage has as its answer
  the trimmed text after the first \<^verbatim>\<open>Answer:\<close>; the answer is non-empty exactly when
  that text has a code unit that is not white space.
\<close>

theorem complete_answer_nonempty_iff:
  assumes "processCoTResponse st t = Inr (r, st') \<or> processPartialCoTResponse t = Inr r"
    and "stageOf r = COMPLETE"
  shows "\<exists>k. firstIndexFrom t AnswerMarker 0 = Some k
           \<and> answer r = trim (drop (k + length AnswerMarker) t)
           \<and> (answer r \<noteq> [] \<longleftrightarrow> \<not> list_all isWhiteSpace (drop (k + length AnswerMarker) t))"
proof -
  from assms obtain ag where ag: "matchAnswer t = Some ag" "answer r = trim ag"
    using processCoTResponse_complete processPartialCoTResponse_complete by blast
  from ag(1) obtain k where k: "firstIndexFrom t AnswerMarker 0 = Some k"
      "ag = drop (k + length AnswerMarker) t"
    by (auto simp: matchAnswer_firstIndex)
  with ag(2) show ?thesis
    by (simp add: trim_eq_Nil)
qed

theorem complete_answer_nonempty_iff_witness:
  "processPartialCoTResponse (js ''Thinking: x\<newline>Answer: y'') =
     Inr \<lparr>thinking = js ''x'', answer = js ''y'', hasStructuredResponse = True,
          partial = Some False, stage = None\<rparr>
   \<and> stageOf \<lparr>thinking = js ''x'', answer = js ''y'', hasStructuredResponse = True,
          partial = Some False, stage = None\<rparr> = COMPLETE
   \<and> firstIndexFrom (js ''Thinking: x\<newline>Answer: y'') AnswerMarker 0 = Some 12
   \<and> \<not> list_all isWhiteSpace (drop (12 + length AnswerMarker) (js ''Thinking: x\<newline>Answer: y''))"
proof -
  let ?t = "js ''Thinking: x\<newline>Answer: y''"
  let ?r = "\<lparr>thinking = js ''x'', answer = js ''y'', hasStructuredResponse = True,
          partial = Some False, stage = None\<rparr>"
  have p: "processPartialCoTResponse ?t = Inr ?r"
    by code_simp
  have c: "stageOf ?r = COMPLETE"
    by code_simp
  have k: "firstIndexFrom ?t AnswerMarker 0 = Some 12"
    by code_simp
  have n: "answer ?r \<noteq> []"
    by (simp add: js_def)
  from complete_answer_nonempty_iff [OF disjI2 [OF p] c] k n
  have "\<not> list_all isWhiteSpace (drop (12 + length AnswerMarker) ?t)"
    by auto
  with p c k show ?thesis by simp
qed

section \<open>Streaming\<close>

text \<open>
  Claim C6. The snapshots \<^verbatim>\<open>Thinking: a\<close>, \<^verbatim>\<open>Thinking: ab\<close> and
  \<^verbatim>\<open>Thinking: ab\<close> followed by a line feed and \<^verbatim>\<open>Answer: c\<close>, processed in turn by
  \<open>processPartialCoTResponse\<close>, are in the stages reasoning, reasoning, complete, and
  the last answer is \<^verbatim>\<open>c\<close>. The function neither reads nor writes the module state.
\<close>

theorem partial_stream_scenario:
  "map processPartialCoTResponse
     [js ''Thinking: a'', js ''Thinking: ab'', js ''Thinking: ab\<newline>Answer: c''] =
     [Inr \<lparr>thinking = js ''a'', answer = [], hasStructuredResponse = True,
           partial = Some True, stage = Some (js ''thinking'')\<rparr>,
      Inr \<lparr>thinking = js ''ab'', answer = [], hasStructuredResponse = True,
           partial = Some True, stage = Some (js ''thinking'')\<rparr>,
      Inr \<lparr>thinking = js ''ab'', answer = js ''c'', hasStructuredResponse = True,
           partial = Some False, stage = None\<rparr>]
   \<and> map stageOf
     [\<lparr>thinking = js ''a'', answer = [], hasStructuredResponse = True,
       partial = Some True, stage = Some (js ''thinking'')\<rparr>,
      \<lparr>thinking = js ''ab'', answer = [], hasStructuredResponse = True,
       partial = Some True, stage = Some (js ''thinking'')\<rparr>,
      \<lparr>thinking = js ''ab'', answer = js ''c'', hasStructuredResponse = True,
       partial = Some False, stage = None\<rparr>] = [REASONING, REASONING, COMPLETE]"
  by code_simp

section \<open>Totality and repeated calls\<close>

text \<open>
  Claim C8. Both processing functions return a result for every text and state: the read
  of a capture group is never reached with a failed match. The empty text gives the
  unstructured result with an empty answer and no stage from both, and
  \<open>formatResponseForDisplay\<close> shows it as the empty string.
\<close>

theorem processors_total:
  "(\<exists>r st'. processCoTResponse st t = Inr (r, st'))
   \<and> (\<exists>r. processPartialCoTResponse t = Inr r)
   \<and> processCoTResponse st [] =
       Inr (\<lparr>thinking = [], answer = [], hasStructuredResponse = False,
             partial = None, stage = None\<rparr>, st)
   \<and> processPartialCoTResponse [] =
       Inr \<lparr>thinking = [], answer = [], hasStructuredResponse = False,
            partial = None, stage = None\<rparr>
   \<and> stageOf \<lparr>thinking = [], answer = [], hasStructuredResponse = False,
            partial = None, stage = None\<rparr> = NONE
   \<and> formatResponseForDisplay
        \<lparr>thinking = [], answer = [], hasStructuredResponse = False,
         partial = None, stage = None\<rparr> cfg = []"
proof -
  have e: "\<not> includesStr [] ThinkingMarker"
    by (simp add: ThinkingMarker_def js_def)
  then have "processCoTResponse st [] = Inr (wholeAsAnswer [], st)"
    by (simp add: processCoTResponse_plain)
  moreover from e have "processPartialCoTResponse [] = Inr (wholeAsAnswer [])"
    by (rule processPartialCoTResponse_plain)
  ultimately show ?thesis
    using processCoTResponse_returns [of st t] processPartialCoTResponse_returns [of t]
    by (simp add: wholeAsAnswer_def stageOf_def formatResponseForDisplay_def)
qed

theorem processors_total_witness:
  "(\<exists>r st'. processCoTResponse resetState (js ''Thinking:'') = Inr (r, st'))
   \<and> (\<exists>r. processPartialCoTResponse (js ''Thinking:'') = Inr r)
   \<and> processCoTResponse resetState [] =
       Inr (\<lparr>thinking = [], answer = [], hasStructuredResponse = False,
             partial = None, stage = None\<rparr>, resetState)
   \<and> processPartialCoTResponse [] =
       Inr \<lparr>thinking = [], answer = [], hasStructuredResponse = False,
            partial = None, stage = None\<rparr>
   \<and> formatResponseForDisplay
        \<lparr>thinking = [], answer = [], hasStructuredResponse = False,
         partial = None, stage = None\<rparr>
        \<lparr>streaming = True, enableCoT = True, showThinking = False\<rparr> = []"
  using processors_total [of resetState "js ''Thinking:''"
      "\<lparr>streaming = True, enableCoT = True, showThinking = False\<rparr>"]
  by simp

text \<open>
  Claim C9. Two calls of \<open>processCoTResponse\<close> in a row on the same text return the
  same object, whatever the state before the first call and although the first call may
  change the state.
\<close>

theorem processCoTResponse_idempotent:
  "\<exists>r st' st''. processCoTResponse st t = Inr (r, st')
     \<and> processCoTResponse st' t = Inr (r, st'')"
proof (cases "includesStr t ThinkingMarker \<and> includesStr t AnswerMarker")
  case True
  then obtain tg ag where "matchThinking t = Some tg" "matchAnswer t = Some ag"
    using matchThinking_None [of t] matchAnswer_None [of t] by auto
  then show ?thesis by (simp add: processCoTResponse_both)
next
  case False
  show ?thesis
  proof (cases "startsWith t ThinkingMarker \<and> \<not> includesStr t AnswerMarker")
    case True
    then show ?thesis by (simp add: processCoTResponse_thinking_only)
  next
    case no: False
    with False have "\<not> includesStr t ThinkingMarker
           \<or> \<not> startsWith t ThinkingMarker \<and> \<not> includesStr t AnswerMarker"
      by blast
    then show ?thesis by (simp add: processCoTResponse_plain)
  qed
qed

theorem processCoTResponse_idempotent_witness:
  "\<exists>r st' st''.
     processCoTResponse
       \<lparr>lastThinkingContent = [], lastAnswerContent = js ''kept'', isThinking = False\<rparr>
       (js ''Thinking: a'') = Inr (r, st')
     \<and> processCoTResponse st' (js ''Thinking: a'') = Inr (r, st'')"
  using processCoTResponse_idempotent
    [of "\<lparr>lastThinkingContent = [], lastAnswerContent = js ''kept'', isThinking = False\<rparr>"
      "js ''Thinking: a''"]
  by simp

section \<open>Display\<close>

text \<open>
  With chain of thought switched off, or for an unstructured result, the answer is shown
  as it is, also when it is empty.
\<close>

theorem formatResponseForDisplay_empty_counterexample:
  "formatResponseForDisplay
     \<lparr>thinking = [], answer = [], hasStructuredResponse = False, partial = None, stage = None\<rparr>
     \<lparr>streaming = False, enableCoT = True, showThinking = False\<rparr> = []
   \<and> formatResponseForDisplay
     \<lparr>thinking = js ''x'', answer = [], hasStructuredResponse = True, partial = Some True,
      stage = Some (js ''thinking'')\<rparr>
     \<lparr>streaming = False, enableCoT = False, showThinking = False\<rparr> = []"
  by (simp add: formatResponseForDisplay_def)

text \<open>
  Claim C3, amended. For a result with an empty answer and settings that hide the
  reasoning, \<open>formatResponseForDisplay\<close> returns the waiting indicator, which is not
  empty, when chain of thought is enabled and the result is structured, and the empty
  answer otherwise.
\<close>

theorem formatResponseForDisplay_waiting:
  assumes "answer p = []" and "\<not> showThinking cfg"
  shows "formatResponseForDisplay p cfg =
           (if enableCoT cfg \<and> hasStructuredResponse p then thinkingIndicator else [])
         \<and> thinkingIndicator \<noteq> []"
  using assms by (simp add: formatResponseForDisplay_def thinkingIndicator_def)

theorem formatResponseForDisplay_waiting_witness:
  "formatResponseForDisplay
     \<lparr>thinking = js ''x'', answer = [], hasStructuredResponse = True, partial = Some True,
      stage = Some (js ''thinking'')\<rparr>
     \<lparr>streaming = False, enableCoT = True, showThinking = False\<rparr> = thinkingIndicator
   \<and> thinkingIndicator \<noteq> []"
  using formatResponseForDisplay_waiting
    [of "\<lparr>thinking = js ''x'', answer = [], hasStructuredResponse = True, partial = Some True,
      stage = Some (js ''thinking'')\<rparr>" "\<lparr>streaming = False, enableCoT = True, showThinking = False\<rparr>"]
  by simp

end
